theory Spec2Isabelle
  imports Complex_Main "HOL-Library.Word"
begin

section \<open>JavaScript values used by the demo pages\<close>

text \<open>
  A JavaScript string is a sequence of UTF-16 code units. Source literals are ASCII and
  are written through \<open>js\<close>, which maps each character to its code unit.
\<close>

type_synonym jsstring = "16 word list"

definition js :: "string \<Rightarrow> jsstring" where
  "js s = map (\<lambda>c. word_of_nat (of_char c)) s"

text \<open>\<open>String.prototype.includes\<close>: the search string occurs at some position.\<close>

primrec str_includes :: "jsstring \<Rightarrow> jsstring \<Rightarrow> bool" where
  "str_includes [] sub = (sub = [])"
| "str_includes (c # cs) sub = (take (length sub) (c # cs) = sub \<or> str_includes cs sub)"

text \<open>
  \<open>String.prototype.trim\<close> strips the code units of the WhiteSpace and LineTerminator
  productions from both ends.
\<close>

definition is_js_space :: "16 word \<Rightarrow> bool" where
  "is_js_space c \<longleftrightarrow>
     c \<in> {0x0009, 0x000A, 0x000B, 0x000C, 0x000D, 0x0020, 0x00A0, 0x1680,
          0x2000, 0x2001, 0x2002, 0x2003, 0x2004, 0x2005, 0x2006, 0x2007,
          0x2008, 0x2009, 0x200A, 0x2028, 0x2029, 0x202F, 0x205F, 0x3000, 0xFEFF}"

definition trim :: "jsstring \<Rightarrow> jsstring" where
  "trim s = rev (dropWhile is_js_space (rev (dropWhile is_js_space s)))"

datatype js_error = TypeError

subsection \<open>FormData\<close>

text \<open>
  An entry of a \<open>FormData\<close> is a string or a \<open>File\<close> (here: its file name); the
  entries are kept in order and \<open>get\<close> returns the first value stored under a name, or
  \<open>null\<close>.
\<close>

datatype entry = Text jsstring | File jsstring

type_synonym formdata = "(jsstring \<times> entry) list"

definition formdata_get :: "formdata \<Rightarrow> jsstring \<Rightarrow> entry option" where
  "formdata_get fd k = map_of fd k"

text \<open>Truthiness of \<open>FormDataEntryValue | null\<close>: only \<open>null\<close> and \<open>""\<close> are falsy.\<close>

fun truthy :: "entry option \<Rightarrow> bool" where
  "truthy None = False"
| "truthy (Some (Text s)) = (s \<noteq> [])"
| "truthy (Some (File f)) = True"

text \<open>String conversion of a value read from the form inside a template literal.\<close>

fun to_string :: "entry option \<Rightarrow> jsstring" where
  "to_string None = js ''null''"
| "to_string (Some (Text s)) = s"
| "to_string (Some (File f)) = js ''[object File]''"

section \<open>Server action: \<open>submitFormAction\<close> (app/server-actions/actions.ts)\<close>

text \<open>
  The object returned by the action: \<open>success\<close> is always set, \<open>error\<close> and
  \<open>message\<close> are set in the failing and in the successful branch respectively.
\<close>

record form_state =
  success :: bool
  error :: "jsstring option"
  message :: "jsstring option"

text \<open>
  The action first awaits a one-second timer, which changes no data. \<open>email.includes\<close>
  is a method call: on a \<open>File\<close> there is no such method and the call raises
  \<open>TypeError\<close>. The template literal converts \<open>name\<close> and \<open>email\<close> to strings.
\<close>

definition submitFormAction :: "'p \<Rightarrow> formdata \<Rightarrow> js_error + form_state" where
  "submitFormAction prevState formData =
     (let name = formdata_get formData (js ''name'');
          email = formdata_get formData (js ''email'');
          msg = formdata_get formData (js ''message'')
      in if \<not> truthy name \<or> \<not> truthy email \<or> \<not> truthy msg
         then Inr \<lparr>success = False, error = Some (js ''Please fill in all fields''), message = None\<rparr>
         else (case email of
                 Some (Text e) \<Rightarrow>
                   if \<not> str_includes e (js ''@'')
                   then Inr \<lparr>success = False,
                             error = Some (js ''Please enter a valid email address''),
                             message = None\<rparr>
                   else Inr \<lparr>success = True, error = None,
                             message = Some (js ''Thanks '' @ to_string name
                               @ js ''! We received your message and will contact you at ''
                               @ e @ js '' soon.'')\<rparr>
               | _ \<Rightarrow> Inl TypeError))"

section \<open>Form Actions demo: the \<open>useActionState\<close> todo reducer (\<open>FormActionsDemo\<close>)\<close>

text \<open>
  \<open>todo.trim()\<close> is a method call on the value read from the form: it raises
  \<open>TypeError\<close> on \<open>null\<close> and on a \<open>File\<close>. The half-second timer changes no data.
\<close>

definition addTodoAction :: "jsstring list \<Rightarrow> formdata \<Rightarrow> js_error + jsstring list" where
  "addTodoAction currentTodos formData =
     (case formdata_get formData (js ''todo'') of
        Some (Text todo) \<Rightarrow>
          if trim todo = [] then Inr currentTodos else Inr (currentTodos @ [todo])
      | _ \<Rightarrow> Inl TypeError)"

section \<open>Optimistic todo list (app/use-optimistic/page.tsx)\<close>

text \<open>
  \<open>type Todo = { id: number; text: string; completed: boolean }\<close>. Identifiers are compared
  with \<open>===\<close>; they are whole numbers in the demo and are modelled as integers.
\<close>

record todo =
  todo_id :: int
  todo_text :: jsstring
  completed :: bool

record optimistic_value =
  ov_id :: int
  ov_completed :: bool

text \<open>The reducer passed to \<open>useOptimistic\<close>: \<open>state.map(todo => ...)\<close>.\<close>

definition optimistic_reducer :: "todo list \<Rightarrow> optimistic_value \<Rightarrow> todo list" where
  "optimistic_reducer state optimisticValue =
     map (\<lambda>t. if todo_id t = ov_id optimisticValue
              then t\<lparr>completed := ov_completed optimisticValue\<rparr>
              else t) state"

section \<open>Page visit tracker: the shopping cart (app/use-effect-event/page.tsx)\<close>

text \<open>
  \<open>interface ShoppingCartItem { id: number; name: string; price: number }\<close>. Prices are
  the decimal literals of the source; no cart operation reads them.
\<close>

record ShoppingCartItem =
  item_id :: int
  item_name :: jsstring
  price :: rat

definition availableItems :: "ShoppingCartItem list" where
  "availableItems =
     [\<lparr>item_id = 1, item_name = js ''Widget'', price = 2999 / 100\<rparr>,
      \<lparr>item_id = 2, item_name = js ''Gadget'', price = 4999 / 100\<rparr>,
      \<lparr>item_id = 3, item_name = js ''Doohickey'', price = 1999 / 100\<rparr>,
      \<lparr>item_id = 4, item_name = js ''Thingamajig'', price = 3999 / 100\<rparr>]"

definition initial_items :: "ShoppingCartItem list" where
  "initial_items =
     [\<lparr>item_id = 1, item_name = js ''Widget'', price = 2999 / 100\<rparr>,
      \<lparr>item_id = 2, item_name = js ''Gadget'', price = 4999 / 100\<rparr>]"

text \<open>
  \<open>items.find(...)\<close> yields an item object or \<open>undefined\<close>; its negation is true exactly
  when nothing was found.
\<close>

definition addItem :: "ShoppingCartItem list \<Rightarrow> ShoppingCartItem list" where
  "addItem items =
     (let unusedItems =
            filter (\<lambda>item. find (\<lambda>i. item_id i = item_id item) items = None) availableItems
      in if length unusedItems > 0 then items @ [unusedItems ! 0] else items)"

definition removeItem :: "int \<Rightarrow> ShoppingCartItem list \<Rightarrow> ShoppingCartItem list" where
  "removeItem ident items = filter (\<lambda>item. item_id item \<noteq> ident) items"

text \<open>The two buttons of the demo, and a session of clicks starting from a given cart.\<close>

datatype cart_action = AddItem | RemoveItem int

fun cart_step :: "ShoppingCartItem list \<Rightarrow> cart_action \<Rightarrow> ShoppingCartItem list" where
  "cart_step items AddItem = addItem items"
| "cart_step items (RemoveItem ident) = removeItem ident items"

definition cart_run :: "cart_action list \<Rightarrow> ShoppingCartItem list" where
  "cart_run acts = foldl cart_step initial_items acts"

text \<open>The invariant of the cart: ids are pairwise different and every item is an available one.\<close>

definition cart_inv :: "ShoppingCartItem list \<Rightarrow> bool" where
  "cart_inv items \<longleftrightarrow> distinct (map item_id items) \<and> set items \<subseteq> set availableItems"

section \<open>Error boundary (app/error-handling/page.tsx)\<close>

text \<open>
  The component state is \<open>{ error: Error | null }\<close>; an \<open>Error\<close> object is always truthy,
  so \<open>if (this.state.error)\<close> tests for non-null. The props are the children and the
  fallback, a function of the error and of a reset callback. The reset callback is the
  closure \<open>() => this.setState({ error: null })\<close>, a transformer of the component state;
  \<open>console.error\<close> appends to the console.
\<close>

record 'e boundary_state =
  boundary_error :: "'e option"

record ('e, 'n) boundary_props =
  children :: 'n
  fallback :: "'e \<Rightarrow> ('e boundary_state \<Rightarrow> 'e boundary_state) \<Rightarrow> 'n"

definition constructor_state :: "'e boundary_state" where
  "constructor_state = \<lparr>boundary_error = None\<rparr>"

text \<open>\<open>setState\<close> merges a partial state; the only field is \<open>error\<close>.\<close>

definition setState :: "'e boundary_state \<Rightarrow> 'e boundary_state \<Rightarrow> 'e boundary_state" where
  "setState partial st = st\<lparr>boundary_error := boundary_error partial\<rparr>"

definition getDerivedStateFromError :: "'e \<Rightarrow> 'e boundary_state" where
  "getDerivedStateFromError e = \<lparr>boundary_error = Some e\<rparr>"

definition componentDidCatch ::
  "'e \<Rightarrow> 'i \<Rightarrow> 'e boundary_state \<times> ('e \<times> 'i) list \<Rightarrow> 'e boundary_state \<times> ('e \<times> 'i) list" where
  "componentDidCatch e errorInfo sc = (fst sc, snd sc @ [(e, errorInfo)])"

definition reset :: "'e boundary_state \<Rightarrow> 'e boundary_state" where
  "reset = setState \<lparr>boundary_error = None\<rparr>"

definition render :: "('e, 'n) boundary_props \<Rightarrow> 'e boundary_state \<Rightarrow> 'n" where
  "render props st =
     (case boundary_error st of
        Some e \<Rightarrow> fallback props e reset
      | None \<Rightarrow> children props)"

text \<open>
  What React does when a child throws \<open>e\<close> while rendering: the state returned by
  \<open>getDerivedStateFromError\<close> is merged into the boundary's state, and
  \<open>componentDidCatch\<close> runs.
\<close>

definition child_throws ::
  "'e \<Rightarrow> 'i \<Rightarrow> 'e boundary_state \<times> ('e \<times> 'i) list \<Rightarrow> 'e boundary_state \<times> ('e \<times> 'i) list" where
  "child_throws e errorInfo sc =
     componentDidCatch e errorInfo (setState (getDerivedStateFromError e) (fst sc), snd sc)"

section \<open>The \<open>useEffectEvent\<close> polyfill (app/use-effect-event/page.tsx)\<close>

text \<open>
  A callback takes an argument list and returns a result. Ref objects live in a heap and
  are named by their address; every evaluation of an arrow function creates a function
  object with a fresh identity. The trampoline \<open>(...args) => ref.current(...args)\<close>
  captures the ref object.
\<close>

type_synonym ('a, 'r) callback = "'a list \<Rightarrow> 'r"

datatype trampoline = Trampoline (fn_identity: nat) (captured_ref: nat)

record ('a, 'r) heap =
  refs :: "('a, 'r) callback list"
  fresh :: nat

text \<open>
  The hook slots React keeps for one component instance between renders: the ref object
  of \<open>useRef\<close> and the function memoised by \<open>useCallback(..., [])\<close>.
\<close>

record hook_slots =
  ref_slot :: nat
  memo_slot :: trampoline

text \<open>The effect \<open>() => { ref.current = callback }\<close>, run after every commit.\<close>

datatype ('a, 'r) effect = SetCurrent nat "('a, 'r) callback"

definition useRef ::
  "hook_slots option \<Rightarrow> ('a, 'r) callback \<Rightarrow> ('a, 'r) heap \<Rightarrow> nat \<times> ('a, 'r) heap" where
  "useRef slots initial h =
     (case slots of
        None \<Rightarrow> (length (refs h), h\<lparr>refs := refs h @ [initial]\<rparr>)
      | Some s \<Rightarrow> (ref_slot s, h))"

definition useCallback :: "hook_slots option \<Rightarrow> trampoline \<Rightarrow> trampoline" where
  "useCallback slots fn = (case slots of None \<Rightarrow> fn | Some s \<Rightarrow> memo_slot s)"

definition useEffectEvent ::
  "hook_slots option \<Rightarrow> ('a, 'r) callback \<Rightarrow> ('a, 'r) heap
     \<Rightarrow> trampoline \<times> ('a, 'r) effect \<times> hook_slots \<times> ('a, 'r) heap" where
  "useEffectEvent slots callback h =
     (let (r, h1) = useRef slots callback h;
          eff = SetCurrent r callback;
          fn = Trampoline (fresh h1) r;
          h2 = h1\<lparr>fresh := fresh h1 + 1\<rparr>;
          stable = useCallback slots fn
      in (stable, eff, \<lparr>ref_slot = r, memo_slot = stable\<rparr>, h2))"

fun run_effect :: "('a, 'r) effect \<Rightarrow> ('a, 'r) heap \<Rightarrow> ('a, 'r) heap" where
  "run_effect (SetCurrent r cb) h = h\<lparr>refs := (refs h)[r := cb]\<rparr>"

text \<open>Calling the trampoline reads \<open>ref.current\<close> at the time of the call.\<close>

fun call_trampoline :: "trampoline \<Rightarrow> 'a list \<Rightarrow> ('a, 'r) heap \<Rightarrow> 'r option" where
  "call_trampoline (Trampoline i r) args h =
     (if r < length (refs h) then Some ((refs h ! r) args) else None)"

text \<open>
  One render of the host component followed by its commit, and a run of re-renders that
  collects the function returned by each.
\<close>

definition render_commit ::
  "hook_slots option \<Rightarrow> ('a, 'r) callback \<Rightarrow> ('a, 'r) heap
     \<Rightarrow> trampoline \<times> hook_slots \<times> ('a, 'r) heap" where
  "render_commit slots callback h =
     (let (fn, eff, s, h') = useEffectEvent slots callback h in (fn, s, run_effect eff h'))"

fun rerenders ::
  "hook_slots \<Rightarrow> ('a, 'r) heap \<Rightarrow> ('a, 'r) callback list
     \<Rightarrow> trampoline list \<times> hook_slots \<times> ('a, 'r) heap" where
  "rerenders s h [] = ([], s, h)"
| "rerenders s h (cb # cbs) =
     (let (fn, s1, h1) = render_commit (Some s) cb h;
          (fns, s2, h2) = rerenders s1 h1 cbs
      in (fn # fns, s2, h2))"

definition mount_and_rerender ::
  "('a, 'r) heap \<Rightarrow> ('a, 'r) callback \<Rightarrow> ('a, 'r) callback list
     \<Rightarrow> trampoline list \<times> hook_slots \<times> ('a, 'r) heap" where
  "mount_and_rerender h cb cbs =
     (let (fn, s1, h1) = render_commit None cb h;
          (fns, s2, h2) = rerenders s1 h1 cbs
      in (fn # fns, s2, h2))"

section \<open>View transitions helper (app/view-transitions/page.tsx)\<close>


datatype 'w svt_property = Absent | Falsy | Fn "('w \<Rightarrow> 'w) \<Rightarrow> 'w \<Rightarrow> 'w"





section \<open>Timers and promises\<close>

text \<open>
  The simulated requests are built from \<open>setTimeout\<close> and \<open>Promise\<close>. Time is counted
  in milliseconds. A task is one of the callbacks handed to \<open>setTimeout\<close> or to \<open>then\<close>:
  either the closure that resolves a given promise with a given value, or a callback of
  the page, named by \<open>'c\<close> and interpreted by the page on its own state \<open>'s\<close>. No callback
  in the sources sets a timer or registers a reaction, so a task acts on the promises and
  on the page state only.
\<close>

datatype 'v pstate = Pending | Fulfilled 'v | Rejected 'v

datatype ('v, 'c) task = ResolveWith nat 'v | Run 'c

record ('v, 'c, 's) sys =
  clock :: nat
  next_timer :: nat
  queue :: "(nat \<times> nat \<times> ('v, 'c) task) list"
  promises :: "'v pstate list"
  reactions :: "(nat \<times> ('v, 'c) task) list"
  settlements :: "(nat \<times> nat) list"
  app :: 's

text \<open>
  \<open>queue\<close> holds the pending timers as (due time, timer id, task), ordered by due time
  and, among equal due times, by registration. \<open>settlements\<close> logs every change of a
  promise out of the pending state as (promise, time).
\<close>

type_synonym ('v, 'c, 's) semantics = "'c \<Rightarrow> 'v option \<Rightarrow> nat \<Rightarrow> 's \<Rightarrow> 's"





definition clearTimeout :: "nat \<Rightarrow> ('v, 'c, 's) sys \<Rightarrow> ('v, 'c, 's) sys" where
  "clearTimeout tid st = st\<lparr>queue := filter (\<lambda>x. fst (snd x) \<noteq> tid) (queue st)\<rparr>"


text \<open>Resolving a promise that is no longer pending has no effect.\<close>

definition resolve :: "nat \<Rightarrow> 'v \<Rightarrow> ('v, 'c, 's) sys \<Rightarrow> ('v, 'c, 's) sys" where
  "resolve p v st =
     (if p < length (promises st) \<and> promises st ! p = Pending
      then st\<lparr>promises := (promises st)[p := Fulfilled v],
              settlements := settlements st @ [(p, clock st)]\<rparr>
      else st)"

text \<open>
  Running a task. A timer callback receives no argument, a reaction receives the value
  of its promise; a page callback also reads the clock (\<open>Date.now()\<close>).
\<close>

fun run_task ::
  "('v, 'c, 's) semantics \<Rightarrow> ('v, 'c) task \<Rightarrow> 'v option \<Rightarrow> ('v, 'c, 's) sys
     \<Rightarrow> ('v, 'c, 's) sys" where
  "run_task sem (ResolveWith p v) arg st = resolve p v st"
| "run_task sem (Run c) arg st = st\<lparr>app := sem c arg (clock st) (app st)\<rparr>"

text \<open>
  Microtasks: after each task the reactions whose promise is fulfilled run, in the order
  of registration, until none is ready. Every step removes one reaction, so as many steps
  as there are reactions suffice.
\<close>

primrec split_ready ::
  "'v pstate list \<Rightarrow> (nat \<times> ('v, 'c) task) list
     \<Rightarrow> ((('v, 'c) task \<times> 'v) \<times> (nat \<times> ('v, 'c) task) list) option" where
  "split_ready ps [] = None"
| "split_ready ps (r # rs) =
     (case (if fst r < length ps then ps ! fst r else Pending) of
        Fulfilled v \<Rightarrow> Some ((snd r, v), rs)
      | _ \<Rightarrow> map_option (\<lambda>x. (fst x, r # snd x)) (split_ready ps rs))"

primrec drain ::
  "nat \<Rightarrow> ('v, 'c, 's) semantics \<Rightarrow> ('v, 'c, 's) sys \<Rightarrow> ('v, 'c, 's) sys" where
  "drain 0 sem st = st"
| "drain (Suc n) sem st =
     (case split_ready (promises st) (reactions st) of
        None \<Rightarrow> st
      | Some x \<Rightarrow> drain n sem (run_task sem (fst (fst x)) (Some (snd (fst x)))
                                (st\<lparr>reactions := snd x\<rparr>)))"

definition run_microtasks :: "('v, 'c, 's) semantics \<Rightarrow> ('v, 'c, 's) sys \<Rightarrow> ('v, 'c, 's) sys" where
  "run_microtasks sem st = drain (length (reactions st)) sem st"



section \<open>Simulated requests\<close>

subsection \<open>\<open>fetchData\<close> (use() hook demo, src/unnamed/part_000)\<close>




subsection \<open>\<open>updateTodoOnServer\<close> (app/use-optimistic/page.tsx)\<close>


subsection \<open>\<open>fetchUserProfile\<close>, \<open>fetchPosts\<close>, \<open>fetchComments\<close> (src/unnamed/part_003)\<close>

record UserData =
  user_id :: int
  user_name :: jsstring
  user_email :: jsstring
  user_role :: jsstring

record PostData =
  post_id :: int
  post_title :: jsstring
  excerpt :: jsstring
  likes :: int

record CommentData =
  comment_id :: int
  author :: jsstring
  comment_text :: jsstring
  comment_timestamp :: jsstring

datatype fetched = User UserData | Posts "PostData list" | Comments "CommentData list"








section \<open>Suspense comparison: the two simulated timelines (src/unnamed/part_003)\<close>

datatype event_type = Fallback | FetchStart | FetchEnd

record TimelineEvent =
  label :: jsstring
  timestamp :: nat
  color :: jsstring
  event_type :: event_type
  component :: "jsstring option"

subsection \<open>\<open>React18Simulation\<close>\<close>

record r18_state =
  showFallback :: bool
  userData :: "fetched option"
  postsData :: "fetched option"
  commentsData :: "fetched option"
  events18 :: "TimelineEvent list"

text \<open>
  The event literals of the effect: the three fetch-start events written at the start,
  and the events appended by the fallback timer and by the three \<open>then\<close> handlers, which
  stamp them with \<open>Date.now()\<close>.
\<close>

definition r18_fetch_starts :: "nat \<Rightarrow> TimelineEvent list" where
  "r18_fetch_starts startTime =
     [\<lparr>label = js ''User fetch starts'', timestamp = startTime, color = js ''#3b82f6'',
       event_type = FetchStart, component = Some (js ''user'')\<rparr>,
      \<lparr>label = js ''Posts fetch starts'', timestamp = startTime + 10, color = js ''#10b981'',
       event_type = FetchStart, component = Some (js ''posts'')\<rparr>,
      \<lparr>label = js ''Comments fetch starts'', timestamp = startTime + 20, color = js ''#ef4444'',
       event_type = FetchStart, component = Some (js ''comments'')\<rparr>]"

definition r18_fallback_shown :: "nat \<Rightarrow> TimelineEvent" where
  "r18_fallback_shown now =
     \<lparr>label = js ''Fallback shown (delayed)'', timestamp = now, color = js ''#f59e0b'',
      event_type = Fallback, component = None\<rparr>"

definition user_loaded :: "nat \<Rightarrow> TimelineEvent" where
  "user_loaded now =
     \<lparr>label = js ''User loaded'', timestamp = now, color = js ''#3b82f6'',
      event_type = FetchEnd, component = Some (js ''user'')\<rparr>"

definition posts_loaded :: "nat \<Rightarrow> TimelineEvent" where
  "posts_loaded now =
     \<lparr>label = js ''Posts loaded'', timestamp = now, color = js ''#10b981'',
      event_type = FetchEnd, component = Some (js ''posts'')\<rparr>"

definition comments_loaded :: "nat \<Rightarrow> TimelineEvent" where
  "comments_loaded now =
     \<lparr>label = js ''Comments loaded'', timestamp = now, color = js ''#ef4444'',
      event_type = FetchEnd, component = Some (js ''comments'')\<rparr>"

text \<open>The callbacks of the effect: the fallback timer and the three \<open>then\<close> handlers.\<close>

datatype r18_callback = FallbackTimer18 | UserLoaded18 | PostsLoaded18 | CommentsLoaded18



definition r18_cleanup ::
  "nat \<Rightarrow> (fetched, r18_callback, r18_state) sys \<Rightarrow> (fetched, r18_callback, r18_state) sys" where
  "r18_cleanup fallbackTimer st = clearTimeout fallbackTimer st"

subsection \<open>\<open>React19Demo\<close>\<close>


definition r19_fetch_starts :: "nat \<Rightarrow> TimelineEvent list" where
  "r19_fetch_starts startTime =
     [\<lparr>label = js ''User fetch starts'', timestamp = startTime, color = js ''#3b82f6'',
       event_type = FetchStart, component = Some (js ''user'')\<rparr>,
      \<lparr>label = js ''Posts fetch starts (pre-warmed)'', timestamp = startTime + 5,
       color = js ''#10b981'', event_type = FetchStart, component = Some (js ''posts'')\<rparr>,
      \<lparr>label = js ''Comments fetch starts (pre-warmed)'', timestamp = startTime + 10,
       color = js ''#ef4444'', event_type = FetchStart, component = Some (js ''comments'')\<rparr>]"

definition r19_fallback_shown :: "nat \<Rightarrow> TimelineEvent" where
  "r19_fallback_shown now =
     \<lparr>label = js ''Fallback shown (immediate)'', timestamp = now, color = js ''#f59e0b'',
      event_type = Fallback, component = None\<rparr>"




text \<open>The events of a given type.\<close>

definition events_of :: "event_type \<Rightarrow> TimelineEvent list \<Rightarrow> TimelineEvent list" where
  "events_of ty evs = filter (\<lambda>e. event_type e = ty) evs"

section \<open>Properties of the form actions\<close>



lemma truthy_iff: "truthy v \<longleftrightarrow> v \<noteq> None \<and> v \<noteq> Some (Text [])"
  by (cases v rule: truthy.cases) simp_all

lemma trim_all_space:
  assumes "\<forall>c \<in> set s. is_js_space c"
  shows "trim s = []"
  using assms by (auto simp: trim_def dest: set_dropWhileD)




text \<open>
  Claim C10: the result of \<open>submitFormAction\<close> does not depend on the previous state. Two
  calls on the same form return equal results, whatever the two previous states (of any
  types) are.
\<close>

theorem submitFormAction_ignores_prevState:
  "submitFormAction (prevState1 :: 'p) formData = submitFormAction (prevState2 :: 'q) formData"
  by (simp add: submitFormAction_def)

theorem submitFormAction_ignores_prevState_witness:
  "submitFormAction (0 :: nat) [(js ''name'', Text (js ''Ann''))]
     = Inr \<lparr>success = False, error = Some (js ''Please fill in all fields''), message = None\<rparr>
   \<and> submitFormAction True [(js ''name'', Text (js ''Ann''))]
     = Inr \<lparr>success = False, error = Some (js ''Please fill in all fields''), message = None\<rparr>"
proof -
  have "submitFormAction (0 :: nat) [(js ''name'', Text (js ''Ann''))]
     = Inr \<lparr>success = False, error = Some (js ''Please fill in all fields''), message = None\<rparr>"
    by (simp add: submitFormAction_def formdata_get_def js_def)
  then show ?thesis
    using submitFormAction_ignores_prevState
      [of "0 :: nat" "[(js ''name'', Text (js ''Ann''))]" True]
    by simp
qed

text \<open>
  Claim C4, as the code has it. \<open>submitFormAction\<close> returns the "Please fill in all
  fields" error whenever one of its three fields is absent or the empty string. The todo
  reducer of the Form Actions demo returns the current todos unchanged, adding nothing,
  whenever the submitted todo text is empty or consists of white space only.
\<close>

theorem empty_fields_behaviour:
  "((\<exists>k \<in> {js ''name'', js ''email'', js ''message''}.
        formdata_get formData k = None \<or> formdata_get formData k = Some (Text []))
      \<longrightarrow> submitFormAction prevState formData =
            Inr \<lparr>success = False, error = Some (js ''Please fill in all fields''),
                 message = None\<rparr>)
   \<and> (\<forall>todo. formdata_get todoForm (js ''todo'') = Some (Text todo)
              \<and> (\<forall>c \<in> set todo. is_js_space c)
      \<longrightarrow> addTodoAction currentTodos todoForm = Inr currentTodos)"
proof (intro conjI impI allI)
  assume "\<exists>k \<in> {js ''name'', js ''email'', js ''message''}.
        formdata_get formData k = None \<or> formdata_get formData k = Some (Text [])"
  then have "\<not> truthy (formdata_get formData (js ''name''))
      \<or> \<not> truthy (formdata_get formData (js ''email''))
      \<or> \<not> truthy (formdata_get formData (js ''message''))"
    by (auto simp: truthy_iff)
  then show "submitFormAction prevState formData =
            Inr \<lparr>success = False, error = Some (js ''Please fill in all fields''),
                 message = None\<rparr>"
    by (auto simp: submitFormAction_def Let_def)
next
  fix todo
  assume "formdata_get todoForm (js ''todo'') = Some (Text todo) \<and> (\<forall>c \<in> set todo. is_js_space c)"
  then show "addTodoAction currentTodos todoForm = Inr currentTodos"
    by (simp add: addTodoAction_def trim_all_space)
qed

theorem empty_fields_behaviour_witness:
  "submitFormAction () [(js ''name'', Text []), (js ''email'', Text (js ''ann@x.org''))]
     = Inr \<lparr>success = False, error = Some (js ''Please fill in all fields''), message = None\<rparr>
   \<and> addTodoAction [js ''milk''] [(js ''todo'', Text (js ''  ''))] = Inr [js ''milk'']"
proof -
  let ?fd = "[(js ''name'', Text []), (js ''email'', Text (js ''ann@x.org''))]"
  let ?tf = "[(js ''todo'', Text (js ''  ''))]"
  have a: "\<exists>k \<in> {js ''name'', js ''email'', js ''message''}.
        formdata_get ?fd k = None \<or> formdata_get ?fd k = Some (Text [])"
    by (simp add: formdata_get_def js_def)
  have b: "formdata_get ?tf (js ''todo'') = Some (Text (js ''  ''))
       \<and> (\<forall>c \<in> set (js ''  ''). is_js_space c)"
    by (simp add: formdata_get_def js_def is_js_space_def)
  show ?thesis
    using empty_fields_behaviour [where formData = ?fd and prevState = "()"
        and todoForm = ?tf and currentTodos = "[js ''milk'']"] a b
    by blast
qed

text \<open>
  The claim as stated fails on both actions: a name of one space is accepted by
  \<open>submitFormAction\<close>, whose result then carries no error, and the todo reducer answers
  an empty todo with the unchanged list, here the empty list, which holds no message.
\<close>

theorem no_validation_message_counterexample:
  "submitFormAction ()
     [(js ''name'', Text (js '' '')), (js ''email'', Text (js ''ann@x.org'')),
      (js ''message'', Text (js ''hello''))]
     = Inr \<lparr>success = True, error = None,
            message = Some (js ''Thanks  ! We received your message and will contact you at ann@x.org soon.'')\<rparr>
   \<and> addTodoAction [] [(js ''todo'', Text [])] = Inr []"
  by (simp add: submitFormAction_def addTodoAction_def formdata_get_def js_def trim_def)

section \<open>Properties of the optimistic reducer\<close>

text \<open>
  Claim C5: for every todo list and every optimistic value, the reducer keeps the length
  of the list, and at every position the result is the todo that was there, with its
  \<open>completed\<close> flag set to the optimistic value's when its id equals the optimistic
  value's id and untouched otherwise; ids and texts stay where they were.
\<close>

theorem optimistic_reducer_frame:
  "length (optimistic_reducer state ov) = length state
   \<and> (\<forall>i < length state.
        optimistic_reducer state ov ! i =
          (if todo_id (state ! i) = ov_id ov
           then (state ! i)\<lparr>completed := ov_completed ov\<rparr>
           else state ! i))
   \<and> map todo_id (optimistic_reducer state ov) = map todo_id state
   \<and> map todo_text (optimistic_reducer state ov) = map todo_text state"
  by (simp add: optimistic_reducer_def)

theorem optimistic_reducer_frame_witness:
  "optimistic_reducer
     [\<lparr>todo_id = 1, todo_text = js ''Learn React 19'', completed = False\<rparr>,
      \<lparr>todo_id = 2, todo_text = js ''Try useOptimistic'', completed = False\<rparr>]
     \<lparr>ov_id = 2, ov_completed = True\<rparr>
   = [\<lparr>todo_id = 1, todo_text = js ''Learn React 19'', completed = False\<rparr>,
      \<lparr>todo_id = 2, todo_text = js ''Try useOptimistic'', completed = True\<rparr>]"
proof -
  let ?s = "[\<lparr>todo_id = 1, todo_text = js ''Learn React 19'', completed = False\<rparr>,
             \<lparr>todo_id = 2, todo_text = js ''Try useOptimistic'', completed = False\<rparr>]"
  let ?ov = "\<lparr>ov_id = 2, ov_completed = True\<rparr>"
  from optimistic_reducer_frame [of ?s ?ov]
  have len: "length (optimistic_reducer ?s ?ov) = 2"
    and nth: "\<forall>i < 2. optimistic_reducer ?s ?ov ! i =
          (if todo_id (?s ! i) = ov_id ?ov then (?s ! i)\<lparr>completed := ov_completed ?ov\<rparr>
           else ?s ! i)"
    by simp_all
  from nth have "optimistic_reducer ?s ?ov ! 0 = ?s ! 0" by simp
  moreover from nth have "optimistic_reducer ?s ?ov ! 1 = (?s ! 1)\<lparr>completed := True\<rparr>"
    by simp
  ultimately show ?thesis
    using len by (simp add: list_eq_iff_nth_eq less_Suc_eq numeral_2_eq_2)
qed

section \<open>Properties of the shopping cart\<close>

lemma unused_filter:
  "filter (\<lambda>item. find (\<lambda>i. item_id i = item_id item) items = None) availableItems
     = filter (\<lambda>a. item_id a \<notin> item_id ` set items) availableItems"
proof (rule filter_cong)
  fix x
  show "(find (\<lambda>i. item_id i = item_id x) items = None) = (item_id x \<notin> item_id ` set items)"
    unfolding find_None_iff image_iff by metis
qed simp

lemma first_of_filter:
  "(case find P xs of None \<Rightarrow> d | Some x \<Rightarrow> f x)
     = (if length (filter P xs) > 0 then f (filter P xs ! 0) else d)"
  by (induction xs) auto

lemma addItem_find:
  "addItem items =
     (case find (\<lambda>a. item_id a \<notin> item_id ` set items) availableItems of
        None \<Rightarrow> items
      | Some x \<Rightarrow> items @ [x])"
  unfolding addItem_def Let_def unused_filter
  by (simp add: first_of_filter [where f = "\<lambda>x. items @ [x]"])

lemma cart_inv_addItem: "cart_inv items \<Longrightarrow> cart_inv (addItem items)"
proof -
  assume inv: "cart_inv items"
  show ?thesis
  proof (cases "find (\<lambda>a. item_id a \<notin> item_id ` set items) availableItems")
    case None
    then show ?thesis using inv by (simp add: addItem_find)
  next
    case (Some x)
    then have "x \<in> set availableItems" "item_id x \<notin> item_id ` set items"
      by (auto simp: find_Some_iff)
    then show ?thesis using inv Some by (auto simp: addItem_find cart_inv_def)
  qed
qed

lemma cart_inv_removeItem: "cart_inv items \<Longrightarrow> cart_inv (removeItem ident items)"
  by (auto simp: cart_inv_def removeItem_def distinct_map_filter)

lemma cart_inv_step: "cart_inv items \<Longrightarrow> cart_inv (cart_step items a)"
  by (cases a) (simp_all add: cart_inv_addItem cart_inv_removeItem)

lemma cart_inv_foldl: "cart_inv items \<Longrightarrow> cart_inv (foldl cart_step items acts)"
  by (induction acts arbitrary: items) (simp_all add: cart_inv_step)

lemma cart_inv_initial: "cart_inv initial_items"
  by (simp add: cart_inv_def initial_items_def availableItems_def)

lemma cart_inv_length:
  assumes "cart_inv items"
  shows "length items \<le> 4"
proof -
  have "item_id ` set items \<subseteq> {1, 2, 3, 4}"
    using assms by (auto simp: cart_inv_def availableItems_def)
  then have "card (item_id ` set items) \<le> card {1, 2, 3, 4 :: int}"
    by (intro card_mono) simp_all
  moreover have "card (item_id ` set items) = length items"
    using assms distinct_card [of "map item_id items"] by (simp add: cart_inv_def)
  ultimately show ?thesis by simp
qed

text \<open>
  Claim C8: after every sequence of \<open>addItem\<close> and \<open>removeItem\<close> clicks starting from the
  initial two-item cart, no two cart items share an id and the cart holds at most four
  items. \<open>addItem\<close>, on any cart, appends the first available item whose id is not in the
  cart and nothing else; when the ids of all four available items are in the cart it
  leaves the cart unchanged.
\<close>

theorem cart_ids_distinct:
  "distinct (map item_id (cart_run acts))
   \<and> length (cart_run acts) \<le> 4
   \<and> addItem items =
       (case find (\<lambda>a. item_id a \<notin> item_id ` set items) availableItems of
          None \<Rightarrow> items
        | Some x \<Rightarrow> items @ [x])
   \<and> ((\<forall>a \<in> set availableItems. item_id a \<in> item_id ` set items) \<longrightarrow> addItem items = items)"
proof (intro conjI impI)
  have inv: "cart_inv (cart_run acts)"
    unfolding cart_run_def by (rule cart_inv_foldl [OF cart_inv_initial])
  then show "distinct (map item_id (cart_run acts))" by (simp add: cart_inv_def)
  from inv show "length (cart_run acts) \<le> 4" by (rule cart_inv_length)
  show "addItem items =
       (case find (\<lambda>a. item_id a \<notin> item_id ` set items) availableItems of
          None \<Rightarrow> items
        | Some x \<Rightarrow> items @ [x])"
    by (rule addItem_find)
next
  assume "\<forall>a \<in> set availableItems. item_id a \<in> item_id ` set items"
  then have "find (\<lambda>a. item_id a \<notin> item_id ` set items) availableItems = None"
    by (simp add: find_None_iff)
  then show "addItem items = items" by (simp add: addItem_find)
qed

theorem cart_ids_distinct_witness:
  "map item_id (cart_run [AddItem, RemoveItem 1, AddItem, AddItem]) = [2, 3, 1, 4]
   \<and> distinct (map item_id (cart_run [AddItem, RemoveItem 1, AddItem, AddItem]))
   \<and> length (cart_run [AddItem, RemoveItem 1, AddItem, AddItem]) \<le> 4
   \<and> addItem (cart_run [AddItem, RemoveItem 1, AddItem, AddItem])
       = cart_run [AddItem, RemoveItem 1, AddItem, AddItem]"
proof -
  let ?acts = "[AddItem, RemoveItem 1, AddItem, AddItem]"
  have ids: "map item_id (cart_run ?acts) = [2, 3, 1, 4]"
    by (simp add: cart_run_def addItem_def removeItem_def availableItems_def initial_items_def)
  have "item_id ` set (cart_run ?acts) = set (map item_id (cart_run ?acts))"
    by simp
  then have full: "\<forall>a \<in> set availableItems. item_id a \<in> item_id ` set (cart_run ?acts)"
    unfolding ids by (simp add: availableItems_def)
  show ?thesis
    using full ids cart_ids_distinct [of ?acts "cart_run ?acts"]
    by blast
qed

section \<open>Properties of the error boundary\<close>

text \<open>
  Claim C2: when a child throws \<open>e\<close> while rendering, the state derived from the error
  stores \<open>e\<close> and the next render is the fallback applied to \<open>e\<close> and to the reset
  callback; with no stored error the render is the children; the reset callback clears
  the stored error, so the render after it is the children again. Beyond that,
  \<open>componentDidCatch\<close> only writes to the console: it leaves the component state as it is.
\<close>

theorem error_boundary_behaviour:
  "getDerivedStateFromError e = \<lparr>boundary_error = Some e\<rparr>
   \<and> boundary_error (fst (child_throws e info (st, console))) = Some e
   \<and> render props (fst (child_throws e info (st, console))) = fallback props e reset
   \<and> (boundary_error st = None \<longrightarrow> render props st = children props)
   \<and> render props constructor_state = children props
   \<and> boundary_error (reset st) = None
   \<and> render props (reset (fst (child_throws e info (st, console)))) = children props
   \<and> fst (componentDidCatch e info (st, console)) = st"
  by (simp add: getDerivedStateFromError_def child_throws_def componentDidCatch_def
      setState_def render_def reset_def constructor_state_def)

theorem error_boundary_behaviour_witness:
  "boundary_error (constructor_state :: string boundary_state) = None
   \<and> render \<lparr>children = ''page'', fallback = (\<lambda>e r. ''failed: '' @ e)\<rparr>
        (constructor_state :: string boundary_state) = ''page''
   \<and> render \<lparr>children = ''page'', fallback = (\<lambda>e r. ''failed: '' @ e)\<rparr>
        (fst (child_throws ''boom'' () (constructor_state, []))) = ''failed: boom''"
proof -
  have none: "boundary_error (constructor_state :: string boundary_state) = None"
    by (simp add: constructor_state_def)
  show ?thesis
    using none
      error_boundary_behaviour [of "''boom''" "()" "constructor_state :: string boundary_state"
        "[]" "\<lparr>children = ''page'', fallback = (\<lambda>e r. ''failed: '' @ e)\<rparr>"]
    by simp
qed

section \<open>Properties of the \<open>useEffectEvent\<close> polyfill\<close>

lemma render_commit_update:
  assumes "ref_slot s < length (refs h)"
  shows "render_commit (Some s) cb h =
           (memo_slot s, s, h\<lparr>refs := (refs h)[ref_slot s := cb], fresh := fresh h + 1\<rparr>)"
  by (simp add: render_commit_def useEffectEvent_def useRef_def useCallback_def Let_def)

lemma render_commit_mount:
  "render_commit None cb h =
     (Trampoline (fresh h) (length (refs h)),
      \<lparr>ref_slot = length (refs h), memo_slot = Trampoline (fresh h) (length (refs h))\<rparr>,
      h\<lparr>refs := refs h @ [cb], fresh := fresh h + 1\<rparr>)"
  by (simp add: render_commit_def useEffectEvent_def useRef_def useCallback_def Let_def)

lemma rerenders_stable:
  assumes "ref_slot s < length (refs h)"
  shows "\<exists>h'. rerenders s h cbs = (replicate (length cbs) (memo_slot s), s, h')
           \<and> length (refs h') = length (refs h)
           \<and> refs h' ! ref_slot s = last (refs h ! ref_slot s # cbs)"
  using assms
proof (induction cbs arbitrary: h)
  case Nil
  then show ?case by simp
next
  case (Cons cb cbs)
  let ?h1 = "h\<lparr>refs := (refs h)[ref_slot s := cb], fresh := fresh h + 1\<rparr>"
  have r: "ref_slot s < length (refs ?h1)" using Cons.prems by simp
  from Cons.IH [OF r] obtain h' where
    h': "rerenders s ?h1 cbs = (replicate (length cbs) (memo_slot s), s, h')"
      "length (refs h') = length (refs ?h1)"
      "refs h' ! ref_slot s = last (refs ?h1 ! ref_slot s # cbs)"
    by blast
  have "rerenders s h (cb # cbs) = (replicate (length (cb # cbs)) (memo_slot s), s, h')"
    using Cons.prems h'(1) by (simp add: render_commit_update)
  moreover have "length (refs h') = length (refs h)" using h'(2) by simp
  moreover have "refs h' ! ref_slot s = last (refs h ! ref_slot s # cb # cbs)"
    using h'(3) Cons.prems by simp
  ultimately show ?case by blast
qed

text \<open>
  Claim C1: mount a component that calls the hook with callback \<open>cb\<close> and re-render it
  with the callbacks \<open>cbs\<close> in turn, each render followed by its commit. Every render
  returns the same function object, the trampoline created at mount; and calling it
  with any argument list, once the last callback is stored in the holder ref, returns
  what that last callback returns on exactly those arguments.
\<close>

theorem useEffectEvent_stable_latest:
  "\<exists>fn s h'. mount_and_rerender h cb cbs = (fn # replicate (length cbs) fn, s, h')
      \<and> memo_slot s = fn
      \<and> (\<forall>f \<in> set (fst (mount_and_rerender h cb cbs)). f = fn)
      \<and> call_trampoline fn args h' = Some (last (cb # cbs) args)"
proof -
  let ?fn = "Trampoline (fresh h) (length (refs h))"
  let ?s = "\<lparr>ref_slot = length (refs h), memo_slot = ?fn\<rparr>"
  let ?h1 = "h\<lparr>refs := refs h @ [cb], fresh := fresh h + 1\<rparr>"
  have r: "ref_slot ?s < length (refs ?h1)" by simp
  from rerenders_stable [OF r, of cbs] obtain h' where
    h': "rerenders ?s ?h1 cbs = (replicate (length cbs) (memo_slot ?s), ?s, h')"
      "length (refs h') = length (refs ?h1)"
      "refs h' ! ref_slot ?s = last (refs ?h1 ! ref_slot ?s # cbs)"
    by blast
  have run: "mount_and_rerender h cb cbs = (?fn # replicate (length cbs) ?fn, ?s, h')"
    using h'(1) by (simp add: mount_and_rerender_def render_commit_mount)
  have "call_trampoline ?fn args h' = Some (last (cb # cbs) args)"
    using h'(2) h'(3) by simp
  with run show ?thesis by auto
qed

theorem useEffectEvent_stable_latest_witness:
  "fst (mount_and_rerender \<lparr>refs = [], fresh = 0\<rparr> (\<lambda>args. 0 # args)
          [\<lambda>args. 1 # args, \<lambda>args. (2 :: nat) # args])
     = [Trampoline 0 0, Trampoline 0 0, Trampoline 0 0]
   \<and> call_trampoline (Trampoline 0 0) [7, 8]
        (snd (snd (mount_and_rerender \<lparr>refs = [], fresh = 0\<rparr> (\<lambda>args. 0 # args)
          [\<lambda>args. 1 # args, \<lambda>args. (2 :: nat) # args])))
     = Some [2, 7, 8]"
proof -
  let ?h = "\<lparr>refs = [], fresh = 0\<rparr> :: (nat, nat list) heap"
  let ?cb = "\<lambda>args. (0 :: nat) # args"
  let ?cbs = "[\<lambda>args. 1 # args, \<lambda>args. (2 :: nat) # args]"
  from useEffectEvent_stable_latest [of ?h ?cb ?cbs "[7, 8]"]
  obtain fn s h' where
    run: "mount_and_rerender ?h ?cb ?cbs = (fn # replicate (length ?cbs) fn, s, h')"
    and call: "call_trampoline fn [7, 8] h' = Some (last (?cb # ?cbs) [7, 8])"
    by blast
  have first: "fst (render_commit None ?cb ?h) = Trampoline 0 0"
    by (simp add: render_commit_mount)
  have "hd (fst (mount_and_rerender ?h ?cb ?cbs)) = Trampoline 0 0"
    using first by (simp add: mount_and_rerender_def split_beta)
  with run have fn: "fn = Trampoline 0 0" by simp
  show ?thesis
    using run call unfolding fn by (simp add: numeral_2_eq_2)
qed

section \<open>Properties of \<open>withViewTransition\<close>\<close>



section \<open>Properties of the simulated requests\<close>


text \<open>
  The microtask loop is given as many steps as there are reactions; that is enough:
  when it stops, no reaction whose promise is fulfilled is left.
\<close>

lemma split_ready_shorter:
  "split_ready ps rs = Some x \<Longrightarrow> Suc (length (snd x)) = length rs"
proof (induction rs arbitrary: x)
  case Nil
  then show ?case by simp
next
  case (Cons r rs)
  show ?case
  proof (cases "if fst r < length ps then ps ! fst r else Pending")
    case (Fulfilled v)
    with Cons.prems show ?thesis by auto
  next
    case Pending
    with Cons.prems obtain y where "split_ready ps rs = Some y" "x = (fst y, r # snd y)"
      by auto
    with Cons.IH show ?thesis by auto
  next
    case (Rejected v)
    with Cons.prems obtain y where "split_ready ps rs = Some y" "x = (fst y, r # snd y)"
      by auto
    with Cons.IH show ?thesis by auto
  qed
qed

lemma reactions_run_task: "reactions (run_task sem tk arg st) = reactions st"
  by (cases tk) (simp_all add: resolve_def)

lemma drain_complete:
  "length (reactions st) \<le> n \<Longrightarrow>
     split_ready (promises (drain n sem st)) (reactions (drain n sem st)) = None"
proof (induction n arbitrary: st)
  case 0
  then show ?case by simp
next
  case (Suc n)
  show ?case
  proof (cases "split_ready (promises st) (reactions st)")
    case None
    then show ?thesis by simp
  next
    case (Some x)
    from split_ready_shorter [OF Some] Suc.prems have "length (snd x) \<le> n" by simp
    then have "length (reactions (run_task sem (fst (fst x)) (Some (snd (fst x)))
                 (st\<lparr>reactions := snd x\<rparr>))) \<le> n"
      by (simp add: reactions_run_task)
    from Suc.IH [OF this] Some show ?thesis by simp
  qed
qed

lemma run_microtasks_complete:
  "split_ready (promises (run_microtasks sem st)) (reactions (run_microtasks sem st)) = None"
  unfolding run_microtasks_def by (rule drain_complete) simp















section \<open>Properties of the two timelines\<close>

lemma event_types [simp]:
  "event_type (r18_fallback_shown n) = Fallback"
  "event_type (r19_fallback_shown n) = Fallback"
  "event_type (user_loaded n) = FetchEnd"
  "event_type (posts_loaded n) = FetchEnd"
  "event_type (comments_loaded n) = FetchEnd"
  by (simp_all add: r18_fallback_shown_def r19_fallback_shown_def user_loaded_def
      posts_loaded_def comments_loaded_def)

lemma fetch_starts_types [simp]:
  "map event_type (r18_fetch_starts t) = [FetchStart, FetchStart, FetchStart]"
  "map event_type (r19_fetch_starts t) = [FetchStart, FetchStart, FetchStart]"
  by (simp_all add: r18_fetch_starts_def r19_fetch_starts_def)

lemma events_of_append [simp]: "events_of ty (xs @ ys) = events_of ty xs @ events_of ty ys"
  by (simp add: events_of_def)

lemma events_of_Nil [simp]: "events_of ty [] = []"
  by (simp add: events_of_def)

lemma events_of_Cons [simp]:
  "events_of ty (e # es) = (if event_type e = ty then e # events_of ty es else events_of ty es)"
  by (simp add: events_of_def)

lemma events_of_none:
  assumes "ty \<notin> set (map event_type evs)"
  shows "events_of ty evs = []"
  using assms by (auto simp: events_of_def filter_empty_conv)

lemma no_fallback_in_starts [simp]:
  "events_of Fallback (r18_fetch_starts t) = []"
  "events_of Fallback (r19_fetch_starts t) = []"
  by (rule events_of_none, simp)+









end
